theory Spec2Isabelle
  imports Main "HOL-Library.Word"
begin

section \<open>Strings of the source language\<close>

text \<open>
  A string of the source (TypeScript) is a sequence of UTF-16 code units, and
  \<open>length\<close>, \<open>startsWith\<close>, \<open>substring\<close> and the regular expressions of the source
  (none has the \<open>u\<close> flag) all work on code units.  A code unit is a 16-bit word.
  \<open>js\<close> turns an ASCII literal into such a string.
\<close>

type_synonym cu = "16 word"
type_synonym jsstring = "cu list"

definition js :: "string \<Rightarrow> jsstring" where
  "js s = map of_char s"

text \<open>\<open>\d\<close> and \<open>[0-9]\<close>: the ten ASCII digits, with or without the \<open>i\<close> flag.\<close>

definition is_digit :: "cu \<Rightarrow> bool" where
  "is_digit c = (48 \<le> c \<and> c \<le> 57)"

text \<open>
  \<open>\s\<close>, and what \<open>trim\<close> removes: the WhiteSpace and LineTerminator code points of
  ECMA-262 (TAB, LF, VT, FF, CR, SP, NBSP, U+1680, U+2000 to U+200A, U+2028, U+2029,
  U+202F, U+205F, U+3000, U+FEFF).
\<close>

definition is_space :: "cu \<Rightarrow> bool" where
  "is_space c =
     ((9 \<le> c \<and> c \<le> 13) \<or> c = 32 \<or> c = 160 \<or> c = 0x1680 \<or> (0x2000 \<le> c \<and> c \<le> 0x200A)
      \<or> c = 0x2028 \<or> c = 0x2029 \<or> c = 0x202F \<or> c = 0x205F \<or> c = 0x3000 \<or> c = 0xFEFF)"

definition is_plus :: "cu \<Rightarrow> bool" where
  "is_plus c = (c = 43)"

text \<open>\<open>[-.\s]\<close>\<close>

definition is_sep :: "cu \<Rightarrow> bool" where
  "is_sep c = (c = 45 \<or> c = 46 \<or> is_space c)"

text \<open>\<open>[0-9\-\s\(\)]\<close>\<close>

definition is_tel_body :: "cu \<Rightarrow> bool" where
  "is_tel_body c = (is_digit c \<or> c = 45 \<or> is_space c \<or> c = 40 \<or> c = 41)"

text \<open>
  A pattern character \<open>p\<close> below 128 under the \<open>i\<close> flag (without the \<open>u\<close> flag)
  matches the code units with the same canonical form.  Canonicalisation is upper-casing,
  except that a code unit from 128 on is never mapped below 128, so on both sides only the
  ASCII letters matter.
\<close>

definition upper_ascii :: "cu \<Rightarrow> cu" where
  "upper_ascii c = (if 97 \<le> c \<and> c \<le> 122 then c - 32 else c)"

definition eq_i :: "cu \<Rightarrow> cu \<Rightarrow> bool" where
  "eq_i p c = (upper_ascii c = upper_ascii p)"

definition trim :: "jsstring \<Rightarrow> jsstring" where
  "trim s = rev (dropWhile is_space (rev (dropWhile is_space s)))"

section \<open>Regular expressions\<close>

text \<open>
  The patterns of the source use single-character atoms, concatenation, alternation, the
  greedy \<open>?\<close>, and the greedy repetitions \<open>{n}\<close>, \<open>{n,m}\<close> and \<open>+\<close> of an atom.
  \<open>Rep a n (Some m)\<close> is \<open>a{n,m}\<close>, \<open>Rep a 1 None\<close> is \<open>a+\<close>.
\<close>

datatype rx =
    Atom "cu \<Rightarrow> bool"
  | Cat rx rx
  | Alt rx rx
  | Opt rx
  | Rep "cu \<Rightarrow> bool" nat "nat option"

text \<open>
  \<open>rep a n m s\<close>: the remainders of \<open>s\<close> after \<open>a{n,m}\<close>, the longest match first.
\<close>

fun rep :: "(cu \<Rightarrow> bool) \<Rightarrow> nat \<Rightarrow> nat option \<Rightarrow> jsstring \<Rightarrow> jsstring list" where
  "rep a n m [] = (if n = 0 then [[]] else [])"
| "rep a n m (c # s) =
     (if m \<noteq> Some 0 \<and> a c
      then rep a (n - 1) (map_option (\<lambda>k. k - 1) m) s @ (if n = 0 then [c # s] else [])
      else (if n = 0 then [c # s] else []))"

text \<open>
  The backtracking matcher of ECMA-262, as a list of successes: \<open>match_here r s\<close> lists
  the remainders of \<open>s\<close> after every way \<open>r\<close> matches a prefix of \<open>s\<close>, in the order in
  which backtracking tries them, so that its head is the match the engine reports at this
  position.  A greedy \<open>?\<close> tries its body first and rejects an empty match of the body.
\<close>

fun match_here :: "rx \<Rightarrow> jsstring \<Rightarrow> jsstring list" where
  "match_here (Atom a) s = (case s of [] \<Rightarrow> [] | c # t \<Rightarrow> if a c then [t] else [])"
| "match_here (Cat r1 r2) s = concat (map (match_here r2) (match_here r1 s))"
| "match_here (Alt r1 r2) s = match_here r1 s @ match_here r2 s"
| "match_here (Opt r) s = filter (\<lambda>t. length t \<noteq> length s) (match_here r s) @ [s]"
| "match_here (Rep a n m) s = rep a n m s"


text \<open>
  \<open>exec r s\<close>: the leftmost match of \<open>r\<close> in \<open>s\<close>, as the number of code units before
  it and its length; \<open>None\<close> when no position matches.
\<close>

fun exec :: "rx \<Rightarrow> jsstring \<Rightarrow> (nat \<times> nat) option" where
  "exec r [] = (case match_here r [] of [] \<Rightarrow> None | t # _ \<Rightarrow> Some (0, 0))"
| "exec r (c # s) =
     (case match_here r (c # s) of
        t # _ \<Rightarrow> Some (0, length (c # s) - length t)
      | [] \<Rightarrow> (case exec r s of None \<Rightarrow> None | Some (i, n) \<Rightarrow> Some (Suc i, n)))"

text \<open>
  The matches of a pattern with the \<open>g\<close> flag, left to right: each search starts where
  the previous match ended, one code unit further after an empty match.
\<close>

function match_all :: "rx \<Rightarrow> jsstring \<Rightarrow> jsstring list" where
  "match_all r s =
     (case exec r s of
        None \<Rightarrow> []
      | Some (i, n) \<Rightarrow>
          take n (drop i s) #
          (if s = [] then [] else match_all r (drop (i + (if n = 0 then 1 else n)) s)))"
  by pat_completeness auto
termination
  by (relation "measure (\<lambda>(r, s). length s)") auto

text \<open>\<open>text.match(pattern)\<close> for a pattern with the \<open>g\<close> flag: \<open>null\<close> when nothing matches.\<close>

definition js_match :: "jsstring \<Rightarrow> rx \<Rightarrow> jsstring list option" where
  "js_match text pattern = (case match_all pattern text of [] \<Rightarrow> None | ms \<Rightarrow> Some ms)"

text \<open>
  \<open>s.replace(/^r/, '')\<close> for a pattern without the \<open>g\<close> and \<open>m\<close> flags: the anchor admits a
  match at index 0 only, and the match is removed.
\<close>

definition replace_prefix :: "rx \<Rightarrow> jsstring \<Rightarrow> jsstring" where
  "replace_prefix r s = (case match_here r s of [] \<Rightarrow> s | t # _ \<Rightarrow> t)"

text \<open>\<open>s.replace(/[^\d]/g, '')\<close>\<close>

definition digits_only :: "jsstring \<Rightarrow> jsstring" where
  "digits_only s = filter is_digit s"

section \<open>The phone extractor\<close>

fun seq :: "rx list \<Rightarrow> rx" where
  "seq [r] = r"
| "seq (r # rs) = Cat r (seq rs)"
| "seq [] = Opt (Atom (\<lambda>c. False))"

definition lit_i :: "string \<Rightarrow> rx" where
  "lit_i s = seq (map (\<lambda>l. Atom (eq_i (of_char l))) s)"

definition digits :: "nat \<Rightarrow> rx" where
  "digits n = Rep is_digit n (Some n)"

text \<open>\<open>(\+\d{1,3}[-.\s]?)?\<close>\<close>

definition country :: rx where
  "country = Opt (seq [Atom is_plus, Rep is_digit 1 (Some 3), Opt (Atom is_sep)])"

text \<open>\<open>(\+\d{1,3}[-.\s]?)?\(?[0-9]{3}\)?[-.\s]?[0-9]{3}[-.\s]?[0-9]{4}\<close>\<close>

definition standard_format :: rx where
  "standard_format =
     seq [country, Opt (Atom (\<lambda>c. c = 40)), digits 3, Opt (Atom (\<lambda>c. c = 41)), Opt (Atom is_sep),
          digits 3, Opt (Atom is_sep), digits 4]"

text \<open>\<open>(\+\d{1,3}[-.\s]?)?[0-9]{10,15}\<close>\<close>

definition international_format :: rx where
  "international_format = seq [country, Rep is_digit 10 (Some 15)]"

text \<open>\<open>(\+\d{1,3}[-.\s]?)?\d{4}[-.\s]?\d{3}[-.\s]?\d{3}\<close>\<close>

definition alternative_format :: rx where
  "alternative_format =
     seq [country, digits 4, Opt (Atom is_sep), digits 3, Opt (Atom is_sep), digits 3]"

text \<open>\<open>(\+\d{1,3}[-.\s]?)?\d{3}[-.\s]?\d{4}[-.\s]?\d{4}\<close>\<close>

definition another_format :: rx where
  "another_format =
     seq [country, digits 3, Opt (Atom is_sep), digits 4, Opt (Atom is_sep), digits 4]"

text \<open>\<open>tel:\+?[0-9\-\s\(\)]+\<close> with the \<open>i\<close> flag\<close>

definition tel_protocol :: rx where
  "tel_protocol = seq [lit_i ''tel:'', Opt (Atom is_plus), Rep is_tel_body 1 None]"

text \<open>\<open>phone:\+?[0-9\-\s\(\)]+\<close> with the \<open>i\<close> flag\<close>

definition phone_prefix :: rx where
  "phone_prefix = seq [lit_i ''phone:'', Opt (Atom is_plus), Rep is_tel_body 1 None]"

definition phonePatterns :: "rx list" where
  "phonePatterns =
     [standard_format, international_format, alternative_format, another_format,
      tel_protocol, phone_prefix]"

text \<open>The body of the inner loop, over the matches of one pattern.\<close>

fun scan_matches :: "jsstring list \<Rightarrow> jsstring option" where
  "scan_matches [] = None"
| "scan_matches (match # matches) =
     (let phone = trim (replace_prefix (Alt (lit_i ''tel:'') (lit_i ''phone:'')) match);
          hasPlus = (case phone of [] \<Rightarrow> False | c # _ \<Rightarrow> c = 43);
          phone = (if hasPlus then 43 # digits_only (drop 1 phone) else digits_only phone);
          digitCount = length (replace_prefix (Atom is_plus) phone)
      in if 10 \<le> digitCount \<and> digitCount \<le> 15
         then (if hasPlus then Some phone
               else if 11 \<le> digitCount then Some (43 # phone)
               else Some phone)
         else scan_matches matches)"

text \<open>The outer loop, over the patterns.\<close>

fun scan_patterns :: "rx list \<Rightarrow> jsstring \<Rightarrow> jsstring option" where
  "scan_patterns [] text = None"
| "scan_patterns (pattern # patterns) text =
     (case js_match text pattern of
        None \<Rightarrow> scan_patterns patterns text
      | Some matches \<Rightarrow>
          (case scan_matches matches of
             Some phone \<Rightarrow> Some phone
           | None \<Rightarrow> scan_patterns patterns text))"

definition extractPhoneNumber :: "jsstring \<Rightarrow> jsstring option" where
  "extractPhoneNumber text =
     (case scan_patterns phonePatterns text of
        Some phone \<Rightarrow> Some phone
      | None \<Rightarrow>
          (let digitSequence = digits_only text
           in if 10 \<le> length digitSequence \<and> length digitSequence \<le> 15
              then Some (if 11 \<le> length digitSequence then 43 # digitSequence else digitSequence)
              else None))"

text \<open>
  The extractor in the words of its description: a match is normalised (prefix and
  surrounding whitespace stripped, then every non-digit but a leading \<open>+\<close>), validated
  by its digit count, and shaped; the candidates of the patterns are taken in the order of
  the patterns, and within a pattern in the order of its matches.
\<close>

definition has_plus :: "jsstring \<Rightarrow> bool" where
  "has_plus c = (case c of [] \<Rightarrow> False | x # _ \<Rightarrow> x = 43)"

definition strip_plus :: "jsstring \<Rightarrow> jsstring" where
  "strip_plus c = (case c of [] \<Rightarrow> [] | x # t \<Rightarrow> if x = 43 then t else c)"

definition digit_count :: "jsstring \<Rightarrow> nat" where
  "digit_count c = length (strip_plus c)"

definition normalize_candidate :: "jsstring \<Rightarrow> jsstring" where
  "normalize_candidate m =
     (let c = trim (replace_prefix (Alt (lit_i ''tel:'') (lit_i ''phone:'')) m)
      in if has_plus c then 43 # digits_only (drop 1 c) else digits_only c)"

definition valid_candidate :: "jsstring \<Rightarrow> bool" where
  "valid_candidate c = (10 \<le> digit_count c \<and> digit_count c \<le> 15)"

definition shape :: "jsstring \<Rightarrow> jsstring" where
  "shape c = (if has_plus c then c else if 11 \<le> digit_count c then 43 # c else c)"

definition candidates :: "rx \<Rightarrow> jsstring \<Rightarrow> jsstring list" where
  "candidates pattern text = map normalize_candidate (match_all pattern text)"

definition first_validated :: "jsstring \<Rightarrow> jsstring option" where
  "first_validated text =
     map_option shape
       (find valid_candidate
          (concat (map (\<lambda>pattern. candidates pattern text)
             [standard_format, international_format, alternative_format, another_format,
              tel_protocol, phone_prefix])))"

definition fallback :: "jsstring \<Rightarrow> jsstring option" where
  "fallback text =
     (let R = digits_only text
      in if length R = 10 then Some R
         else if 11 \<le> length R \<and> length R \<le> 15 then Some (43 # R)
         else None)"

text \<open>
  The invariant of a phone candidate: digits, after an optional leading \<open>+\<close>, and
  between 10 and 15 of them.
\<close>

definition PhoneCandidate :: "jsstring \<Rightarrow> bool" where
  "PhoneCandidate p =
     (list_all is_digit (strip_plus p) \<and> 10 \<le> digit_count p \<and> digit_count p \<le> 15)"

section \<open>\<open>encodeURIComponent\<close>\<close>

text \<open>
  ECMA-262 \<open>Encode\<close> with the unreserved set of \<open>encodeURIComponent\<close>: letters, digits
  and \<open>-_.!~*'()\<close> stay, every other code point is written as the octets of its UTF-8
  encoding, each as \<open>%XX\<close>; an unpaired surrogate raises \<open>URIError\<close> (\<open>None\<close>).
\<close>

definition uri_unreserved :: "cu \<Rightarrow> bool" where
  "uri_unreserved c =
     ((65 \<le> c \<and> c \<le> 90) \<or> (97 \<le> c \<and> c \<le> 122) \<or> (48 \<le> c \<and> c \<le> 57)
      \<or> c = 45 \<or> c = 95 \<or> c = 46 \<or> c = 33 \<or> c = 126 \<or> c = 42 \<or> c = 39 \<or> c = 40 \<or> c = 41)"

definition hex_digit :: "nat \<Rightarrow> cu" where
  "hex_digit n = (if n < 10 then of_nat (48 + n) else of_nat (55 + n))"

definition percent :: "nat \<Rightarrow> jsstring" where
  "percent octet = [37, hex_digit (octet div 16), hex_digit (octet mod 16)]"

definition utf8 :: "nat \<Rightarrow> nat list" where
  "utf8 v =
     (if v < 0x80 then [v]
      else if v < 0x800 then [0xC0 + v div 64, 0x80 + v mod 64]
      else if v < 0x10000 then [0xE0 + v div 4096, 0x80 + v div 64 mod 64, 0x80 + v mod 64]
      else [0xF0 + v div 262144, 0x80 + v div 4096 mod 64, 0x80 + v div 64 mod 64,
            0x80 + v mod 64])"

definition is_high_surrogate :: "cu \<Rightarrow> bool" where
  "is_high_surrogate c = (0xD800 \<le> c \<and> c \<le> 0xDBFF)"

definition is_low_surrogate :: "cu \<Rightarrow> bool" where
  "is_low_surrogate c = (0xDC00 \<le> c \<and> c \<le> 0xDFFF)"

fun encodeURIComponent :: "jsstring \<Rightarrow> jsstring option" where
  "encodeURIComponent [] = Some []"
| "encodeURIComponent (c # s) =
     (if uri_unreserved c then map_option ((#) c) (encodeURIComponent s)
      else if is_low_surrogate c then None
      else if is_high_surrogate c then
        (case s of
           [] \<Rightarrow> None
         | d # s' \<Rightarrow>
             if is_low_surrogate d
             then map_option
                    ((@) (concat (map percent
                       (utf8 ((unat c - 0xD800) * 0x400 + (unat d - 0xDC00) + 0x10000)))))
                    (encodeURIComponent s')
             else None)
      else map_option ((@) (concat (map percent (utf8 (unat c))))) (encodeURIComponent s))"

section \<open>The session\<close>

datatype permission = Unknown | Granted | Denied | Prompt

datatype inversion = DontInvert | AttemptBoth

text \<open>
  The calls that leave the component, in the order they are made: acquiring the capture
  device, stopping one of its tracks, clearing the polling timer, the decoder, starting
  the load of an uploaded image, navigation; and \<open>setPhoneNumber\<close> with a number found.
\<close>

datatype call =
    GetUserMedia
  | TrackStop nat
  | SetInterval nat
  | ClearInterval nat
  | JsQR inversion
  | ImageLoad
  | Navigate jsstring
  | SetPhoneNumber jsstring

text \<open>
  The state of the component: its state variables, the two references the scanner
  writes (\<open>scanIntervalRef\<close>, the timer; \<open>streamRef\<close>, the tracks of the stream held), the
  source attached to the video element, and the calls made so far.
\<close>

record session =
  phoneNumber :: jsstring
  scanned :: bool
  error :: jsstring
  isScanning :: bool
  permissionState :: permission
  isProcessingFile :: bool
  lastScannedContent :: jsstring
  smsMessage :: jsstring
  isSendingSms :: bool
  smsAttempted :: bool
  scanIntervalRef :: "nat option"
  streamRef :: "nat list option"
  srcObject :: "nat list option"
  calls :: "call list"

definition initial :: session where
  "initial =
     \<lparr> phoneNumber = [], scanned = False, error = [], isScanning = False,
       permissionState = Unknown, isProcessingFile = False, lastScannedContent = [],
       smsMessage = [], isSendingSms = False, smsAttempted = False,
       scanIntervalRef = None, streamRef = None, srcObject = None, calls = [] \<rparr>"

definition called :: "call \<Rightarrow> session \<Rightarrow> session" where
  "called c st = st\<lparr>calls := calls st @ [c]\<rparr>"

text \<open>The outcome of \<open>getUserMedia\<close>: a stream with its tracks, or a rejection with the
  name and the message of the error.\<close>

datatype media = Stream "nat list" | Rejected jsstring jsstring

definition stopStream :: "session \<Rightarrow> session" where
  "stopStream st =
     (case streamRef st of
        None \<Rightarrow> st
      | Some tracks \<Rightarrow> (fold (\<lambda>track. called (TrackStop track)) tracks st)\<lparr>streamRef := None\<rparr>)"

definition requestCameraPermission :: "media \<Rightarrow> session \<Rightarrow> bool \<times> session" where
  "requestCameraPermission outcome st =
     (let st = called GetUserMedia (st\<lparr>error := []\<rparr>)
      in case outcome of
           Stream tracks \<Rightarrow>
             (True, (stopStream (st\<lparr>streamRef := Some tracks\<rparr>))\<lparr>permissionState := Granted\<rparr>)
         | Rejected name message \<Rightarrow>
             (False,
              if name = js ''NotAllowedError''
              then st\<lparr>error := js ''Camera access denied. Please allow camera access in your browser settings.'',
                      permissionState := Denied\<rparr>
              else if name = js ''NotFoundError''
              then st\<lparr>error := js ''No camera found on this device.''\<rparr>
              else st\<lparr>error := js ''Camera access failed: '' @ message\<rparr>))"

text \<open>
  \<open>stopScanning\<close>.  A reference to a timer is true in a condition when it holds an
  identifier other than 0.  \<open>mounted\<close> says whether the video element is there
  (\<open>videoRef.current\<close> is not \<open>null\<close>) when the function is called.
\<close>

definition stopScanning :: "bool \<Rightarrow> session \<Rightarrow> session" where
  "stopScanning mounted st =
     (let st = (case scanIntervalRef st of
                  None \<Rightarrow> st
                | Some timer \<Rightarrow>
                    if timer = 0 then st
                    else (called (ClearInterval timer) st)\<lparr>scanIntervalRef := None\<rparr>);
          st = stopStream st;
          st = (if mounted then st\<lparr>srcObject := None\<rparr> else st)
      in st\<lparr>isScanning := False\<rparr>)"

text \<open>A string or \<open>null\<close> in a condition: \<open>null\<close> and the empty string are false.\<close>

definition truthy :: "jsstring option \<Rightarrow> bool" where
  "truthy v = (case v of None \<Rightarrow> False | Some s \<Rightarrow> s \<noteq> [])"

text \<open>
  What one poll tick finds: whether the video element and the canvas are there and the
  video has enough data, whether the canvas gives a drawing context, and what the decoder
  returns on the frame (\<open>code.data\<close>, or \<open>None\<close> for no code).  Where \<open>scanVideoFrame\<close>
  calls \<open>stopScanning\<close> it has found the video element there at its start, and nothing
  has run in between, so the element is still there.
\<close>

record frame =
  ready :: bool
  ctx :: bool
  code :: "jsstring option"

definition scanVideoFrame :: "frame \<Rightarrow> session \<Rightarrow> session" where
  "scanVideoFrame f st =
     (if \<not> ready f then st
      else if \<not> ctx f then st
      else
        (let st = called (JsQR DontInvert) st
         in if truthy (code f)
            then
              (let st = st\<lparr>lastScannedContent := the (code f)\<rparr>;
                   phoneMatch = extractPhoneNumber (the (code f))
               in if truthy phoneMatch
                  then stopScanning True
                         ((called (SetPhoneNumber (the phoneMatch)) st)
                            \<lparr>phoneNumber := the phoneMatch, scanned := True\<rparr>)
                  else st\<lparr>error := js ''QR Code detected but no phone number found. Content: ''
                                    @ [34] @ take 100 (the (code f)) @ js ''...'' @ [34]\<rparr>)
            else st))"

text \<open>
  The timer calls \<open>scanVideoFrame\<close> every 200 ms for as long as the interval is set, and
  never again once it is cleared.  Within one session the interval is set exactly while
  \<open>scanIntervalRef\<close> holds its identifier: \<open>startScanning\<close> sets both, and
  \<open>stopScanning\<close> clears both or neither.
\<close>

definition poll_tick :: "frame \<Rightarrow> session \<Rightarrow> session" where
  "poll_tick f st = (if scanIntervalRef st = None then st else scanVideoFrame f st)"

definition poll_ticks :: "frame list \<Rightarrow> session \<Rightarrow> session" where
  "poll_ticks fs st = fold poll_tick fs st"

text \<open>
  The number a poll tick finds on a frame, if it finds one: the frame is decoded, the
  decoder returns a payload, and the extractor validates a number in it.
\<close>

definition found :: "frame \<Rightarrow> jsstring option" where
  "found f =
     (if ready f \<and> ctx f \<and> truthy (code f) \<and> truthy (extractPhoneNumber (the (code f)))
      then extractPhoneNumber (the (code f)) else None)"

text \<open>The numbers reported as found, in the order of their reports.\<close>

fun reported :: "call list \<Rightarrow> jsstring list" where
  "reported [] = []"
| "reported (SetPhoneNumber p # cs) = p # reported cs"
| "reported (c # cs) = reported cs"

text \<open>
  \<open>startScanning\<close>: the outcome of \<open>getUserMedia\<close>, whether the video element is mounted,
  the message of the error when \<open>play\<close> rejects, and the identifier the timer gets.
\<close>

record camera =
  acquired :: media
  video :: bool
  play_error :: "jsstring option"
  timer :: nat

definition startScanning :: "camera \<Rightarrow> session \<Rightarrow> session" where
  "startScanning env st =
     (let st = called GetUserMedia (st\<lparr>error := [], isScanning := True\<rparr>)
      in case acquired env of
           Rejected name message \<Rightarrow>
             st\<lparr>error := js ''Failed to start camera: '' @ message, isScanning := False\<rparr>
         | Stream tracks \<Rightarrow>
             (let st = st\<lparr>streamRef := Some tracks\<rparr>
              in if video env
                 then
                   (let st = st\<lparr>srcObject := Some tracks\<rparr>
                    in case play_error env of
                         Some message \<Rightarrow>
                           st\<lparr>error := js ''Failed to start camera: '' @ message,
                              isScanning := False\<rparr>
                       | None \<Rightarrow>
                           (called (SetInterval (timer env)) st)
                             \<lparr>scanIntervalRef := Some (timer env)\<rparr>)
                 else st))"

text \<open>
  \<open>processFileUpload\<close> up to the start of the image load, and the two callbacks of the
  load.  \<open>canvas\<close> and \<open>context2d\<close> say whether the canvas and its drawing context exist.
\<close>

record canvas_env =
  canvas :: bool
  context2d :: bool

definition processFileUpload :: "canvas_env \<Rightarrow> session \<Rightarrow> session" where
  "processFileUpload env st =
     (let st = st\<lparr>isProcessingFile := True, error := []\<rparr>
      in if \<not> canvas env
         then st\<lparr>error := js ''Failed to process file: '' @ js ''Canvas not available'',
                 isProcessingFile := False\<rparr>
         else if \<not> context2d env
         then st\<lparr>error := js ''Failed to process file: '' @ js ''Canvas context not available'',
                 isProcessingFile := False\<rparr>
         else called ImageLoad st)"

definition image_onload :: "jsstring option \<Rightarrow> session \<Rightarrow> session" where
  "image_onload decoded st =
     (let st = called (JsQR AttemptBoth) st;
          st =
            (if truthy decoded
             then
               (let st = st\<lparr>lastScannedContent := the decoded\<rparr>;
                    phoneMatch = extractPhoneNumber (the decoded)
                in if truthy phoneMatch
                   then (called (SetPhoneNumber (the phoneMatch)) st)
                          \<lparr>phoneNumber := the phoneMatch, scanned := True\<rparr>
                   else st\<lparr>error :=
                          js ''QR code found but no valid phone number detected. Content: ''
                          @ [34] @ take 100 (the decoded)
                          @ (if 100 < length (the decoded) then js ''...'' else []) @ [34]\<rparr>)
             else st\<lparr>error := js ''No QR code detected in the image. Please ensure the image contains a clear, well-lit QR code.''\<rparr>)
      in st\<lparr>isProcessingFile := False\<rparr>)"

definition image_onerror :: "session \<Rightarrow> session" where
  "image_onerror st =
     st\<lparr>error := js ''Failed to load image file. Please try a different image.'',
        isProcessingFile := False\<rparr>"

text \<open>
  \<open>handleFileSelect\<close>: the argument is the media type of the first selected file, \<open>None\<close>
  when no file is selected.
\<close>

definition starts_with :: "jsstring \<Rightarrow> jsstring \<Rightarrow> bool" where
  "starts_with s p = (take (length p) s = p)"

definition handleFileSelect :: "jsstring option \<Rightarrow> canvas_env \<Rightarrow> session \<Rightarrow> session" where
  "handleFileSelect file env st =
     (case file of
        None \<Rightarrow> st
      | Some file_type \<Rightarrow>
          if starts_with file_type (js ''image/'')
          then processFileUpload env st
          else st\<lparr>error := js ''Please select an image file (JPG, PNG, GIF, WebP, etc.)''\<rparr>)"

definition handleManualInput :: "jsstring \<Rightarrow> session \<Rightarrow> session" where
  "handleManualInput input st =
     (let phoneMatch = extractPhoneNumber input
      in if truthy phoneMatch
         then (called (SetPhoneNumber (the phoneMatch)) st)
                \<lparr>phoneNumber := the phoneMatch, scanned := True, error := []\<rparr>
         else st\<lparr>error := js ''Please enter a valid phone number (10-15 digits with optional country code).''\<rparr>)"

text \<open>
  \<open>sendSms\<close>.  The environment: whether the user agent is a mobile one, whether the
  assignment to \<open>window.location.href\<close> throws, and the message of the engine's
  \<open>URIError\<close>.  The \<open>try\<close> block gives the state it reaches, or the message of the
  error thrown with the state at the throw.  (The callback deferred by one second only
  clears \<open>error\<close>, and is left out.)
\<close>

record sms_env =
  mobile :: bool
  href_throws :: bool
  uri_error :: jsstring

definition sms_warning :: jsstring where
  "sms_warning =
     [0x26A0, 0xFE0F] @ js '' SMS links work best on mobile devices. On desktop, you may need to copy the phone number manually.''"

definition sendSms_try :: "sms_env \<Rightarrow> session \<Rightarrow> (jsstring \<times> session) + session" where
  "sendSms_try env st =
     (if phoneNumber st = [] \<or> length (phoneNumber st) < 10
      then Inl (js ''Invalid phone number'', st)
      else if trim (smsMessage st) = []
      then Inl (js ''Message cannot be empty'', st)
      else
        (case encodeURIComponent (smsMessage st) of
           None \<Rightarrow> Inl (uri_error env, st)
         | Some body \<Rightarrow>
             (let smsLink = js ''sms:'' @ phoneNumber st @ js ''?body='' @ body;
                  st = (if \<not> mobile env then st\<lparr>error := sms_warning\<rparr> else st);
                  st = called (Navigate smsLink) st
              in if href_throws env
                 then Inl (js ''Failed to open SMS application. Please copy the phone number and message manually.'', st)
                 else Inr (st\<lparr>smsAttempted := True\<rparr>))))"

definition sendSms :: "sms_env \<Rightarrow> session \<Rightarrow> session" where
  "sendSms env st =
     (let st = st\<lparr>isSendingSms := True, error := [], smsAttempted := False\<rparr>;
          st =
            (case sendSms_try env st of
               Inr st \<Rightarrow> st
             | Inl (message, st) \<Rightarrow> st\<lparr>error := js ''Failed to send SMS: '' @ message\<rparr>)
      in st\<lparr>isSendingSms := False\<rparr>)"

text \<open>\<open>resetScanner\<close>; \<open>mounted\<close> is as for \<open>stopScanning\<close>.\<close>

definition resetScanner :: "bool \<Rightarrow> session \<Rightarrow> session" where
  "resetScanner mounted st =
     stopScanning mounted
       (st\<lparr>phoneNumber := [], scanned := False, error := [], lastScannedContent := [],
           smsMessage := [], smsAttempted := False\<rparr>)"

text \<open>
  What the component stores as the phone number: nothing, or a phone candidate.
\<close>

definition stored_ok :: "session \<Rightarrow> bool" where
  "stored_ok st = (phoneNumber st = [] \<or> PhoneCandidate (phoneNumber st))"

section \<open>The two loops as a search in order\<close>

declare match_all.simps [simp del]

lemma digit_not_plus: "is_digit c \<Longrightarrow> c \<noteq> 43"
  by (auto simp: is_digit_def)

lemma has_plus_Cons [simp]: "has_plus (c # s) = (c = 43)"
  by (simp add: has_plus_def)

lemma strip_plus_Cons [simp]: "strip_plus (c # s) = (if c = 43 then s else c # s)"
  by (simp add: strip_plus_def)

lemma strip_plus_Nil [simp]: "strip_plus [] = []"
  by (simp add: strip_plus_def)

lemma has_plus_digits_only [simp]: "\<not> has_plus (digits_only s)"
proof (cases "digits_only s")
  case Nil then show ?thesis by (simp add: has_plus_def)
next
  case (Cons c t)
  then have "c \<in> set (filter is_digit s)" by (simp add: digits_only_def)
  then have "is_digit c" by simp
  with Cons show ?thesis by (simp add: digit_not_plus)
qed

lemma replace_plus: "replace_prefix (Atom is_plus) s = strip_plus s"
  by (cases s) (simp_all add: replace_prefix_def is_plus_def)

lemma strip_plus_no_plus: "\<not> has_plus s \<Longrightarrow> strip_plus s = s"
  by (cases s) (simp_all add: has_plus_def)

lemma scan_matches_Cons:
  "scan_matches (m # ms) =
     (if valid_candidate (normalize_candidate m) then Some (shape (normalize_candidate m))
      else scan_matches ms)"
proof -
  let ?c = "trim (replace_prefix (Alt (lit_i ''tel:'') (lit_i ''phone:'')) m)"
  have hp: "(case ?c of [] \<Rightarrow> False | x # _ \<Rightarrow> x = 43) = has_plus ?c"
    by (simp add: has_plus_def)
  show ?thesis
    by (simp only: scan_matches.simps Let_def hp replace_plus)
       (simp add: valid_candidate_def shape_def digit_count_def normalize_candidate_def Let_def
                  strip_plus_no_plus)
qed

lemma scan_matches_find:
  "scan_matches ms = map_option shape (find valid_candidate (map normalize_candidate ms))"
  by (induction ms) (simp_all add: scan_matches_Cons del: scan_matches.simps(2))

lemma find_append:
  "find P (xs @ ys) = (case find P xs of Some x \<Rightarrow> Some x | None \<Rightarrow> find P ys)"
  by (induction xs) simp_all

lemma js_match_cases:
  "(case js_match text p of None \<Rightarrow> a | Some ms \<Rightarrow> f ms) =
   (if match_all p text = [] then a else f (match_all p text))"
  by (simp add: js_match_def split: list.split)

lemma scan_patterns_find:
  "scan_patterns ps text =
     map_option shape (find valid_candidate (concat (map (\<lambda>p. candidates p text) ps)))"
proof (induction ps)
  case Nil
  show ?case by simp
next
  case (Cons p ps)
  show ?case
    by (simp only: scan_patterns.simps js_match_cases)
       (simp add: Cons.IH scan_matches_find find_append candidates_def split: option.split)
qed

lemma fallback_eq:
  "(let digitSequence = digits_only text
    in if 10 \<le> length digitSequence \<and> length digitSequence \<le> 15
       then Some (if 11 \<le> length digitSequence then 43 # digitSequence else digitSequence)
       else None) = fallback text"
  by (auto simp: fallback_def Let_def)

lemma extract_eq:
  "extractPhoneNumber text =
     (case scan_patterns phonePatterns text of Some phone \<Rightarrow> Some phone | None \<Rightarrow> fallback text)"
  by (simp only: extractPhoneNumber_def fallback_eq)

lemma extract_by_order:
  "extractPhoneNumber text =
     (case first_validated text of Some phone \<Rightarrow> Some phone | None \<Rightarrow> fallback text)"
  by (simp only: extract_eq scan_patterns_find first_validated_def phonePatterns_def)

lemma digits_only_all [simp]: "list_all is_digit (digits_only s)"
  by (simp add: digits_only_def list_all_iff)

lemma normalize_digits: "list_all is_digit (strip_plus (normalize_candidate m))"
  by (simp add: normalize_candidate_def Let_def strip_plus_no_plus)

lemma shape_candidate:
  assumes "valid_candidate c" and "list_all is_digit (strip_plus c)"
  shows "PhoneCandidate (shape c)"
proof (cases "has_plus c")
  case True
  with assms show ?thesis by (simp add: shape_def PhoneCandidate_def valid_candidate_def)
next
  case False
  then have c: "strip_plus c = c" by (rule strip_plus_no_plus)
  with assms False show ?thesis
    by (simp add: shape_def PhoneCandidate_def valid_candidate_def digit_count_def)
qed

lemma find_SomeD: "find P xs = Some x \<Longrightarrow> P x \<and> x \<in> set xs"
  by (induction xs) (auto split: if_splits)

lemma first_validated_candidate:
  assumes "first_validated text = Some p"
  shows "PhoneCandidate p"
proof -
  from assms obtain c where f: "find valid_candidate
      (concat (map (\<lambda>pattern. candidates pattern text)
         [standard_format, international_format, alternative_format, another_format,
          tel_protocol, phone_prefix])) = Some c" and p: "p = shape c"
    by (auto simp: first_validated_def)
  from find_SomeD [OF f] have v: "valid_candidate c" and
    "c \<in> set (concat (map (\<lambda>pattern. candidates pattern text)
         [standard_format, international_format, alternative_format, another_format,
          tel_protocol, phone_prefix]))" by simp_all
  then obtain m where "c = normalize_candidate m"
    by (auto simp: candidates_def)
  then have "list_all is_digit (strip_plus c)" by (simp add: normalize_digits)
  with v p show ?thesis by (simp add: shape_candidate)
qed

lemma fallback_candidate:
  assumes "fallback text = Some p"
  shows "PhoneCandidate p"
proof -
  have d: "strip_plus (digits_only text) = digits_only text"
    by (simp add: strip_plus_no_plus)
  from assms show ?thesis
    by (auto simp: fallback_def Let_def PhoneCandidate_def digit_count_def d split: if_splits)
qed

lemma extract_PhoneCandidate:
  "extractPhoneNumber text = Some p \<Longrightarrow> PhoneCandidate p"
  by (auto simp: extract_by_order first_validated_candidate fallback_candidate
           split: option.splits)

lemma first_validated_None:
  assumes "\<forall>pattern\<in>set phonePatterns. \<not> list_ex valid_candidate (candidates pattern text)"
  shows "first_validated text = None"
proof -
  have "find valid_candidate (concat (map (\<lambda>pattern. candidates pattern text) phonePatterns)) = None"
    using assms by (auto simp: find_None_iff list_ex_iff)
  then show ?thesis by (simp add: first_validated_def phonePatterns_def)
qed

lemma extract_falls_back:
  assumes "\<forall>pattern\<in>set phonePatterns. \<not> list_ex valid_candidate (candidates pattern text)"
  shows "extractPhoneNumber text = fallback text"
  using first_validated_None [OF assms] by (simp add: extract_by_order)

text \<open>The definitions a concrete input is evaluated with.\<close>

lemmas extract_eval =
  extractPhoneNumber_def phonePatterns_def standard_format_def international_format_def
  alternative_format_def another_format_def tel_protocol_def phone_prefix_def country_def
  digits_def lit_i_def js_def js_match_def is_digit_def is_space_def is_sep_def is_plus_def
  is_tel_body_def eq_i_def upper_ascii_def trim_def replace_prefix_def digits_only_def
  match_all.simps

lemmas candidate_eval =
  candidates_def normalize_candidate_def valid_candidate_def digit_count_def shape_def
  PhoneCandidate_def

section \<open>Runs of digits\<close>

lemma digit_facts:
  assumes "is_digit c"
  shows "\<not> is_plus c" "\<not> is_sep c" "c \<noteq> 40" "c \<noteq> 41" "\<not> is_space c" "c \<noteq> 43"
    "\<not> eq_i 116 c" "\<not> eq_i 112 c"
  using assms
  by (auto simp: is_digit_def is_plus_def is_sep_def is_space_def eq_i_def upper_ascii_def
      word_le_nat_alt split: if_splits)

lemma plus_facts: "\<not> is_digit 43" "\<not> is_space 43" "\<not> eq_i 116 43"
  "\<not> eq_i 112 43" "is_plus 43"
  by (simp_all add: is_digit_def is_space_def eq_i_def upper_ascii_def is_plus_def)

lemma length_10: "length ds = 10 \<Longrightarrow> \<exists>a b c d e f g h i j. ds = [a, b, c, d, e, f, g, h, i, j]"
  by (simp add: eval_nat_numeral length_Suc_conv) blast

lemma standard_on_digits:
  assumes "list_all is_digit ds" and "length ds = 10"
  shows "match_here standard_format (ds @ rest) = [rest]"
proof -
  from length_10 [OF assms(2)] obtain a b c d e f g h i j where ds: "ds = [a, b, c, d, e, f, g, h, i, j]"
    by blast
  with assms(1) have dg: "is_digit a" "is_digit b" "is_digit c" "is_digit d" "is_digit e"
    "is_digit f" "is_digit g" "is_digit h" "is_digit i" "is_digit j" by simp_all
  show ?thesis
    unfolding ds standard_format_def country_def digits_def
    by (cases rest) (simp_all add: dg digit_facts)
qed

lemma exec_head:
  assumes "match_here r s = t # ts" and "s \<noteq> []"
  shows "exec r s = Some (0, length s - length t)"
  using assms by (cases s) simp_all

lemma match_all_head:
  assumes "match_here r s = t # ts" and "s \<noteq> []"
  shows "\<exists>ms. match_all r s = take (length s - length t) s # ms"
  by (subst match_all.simps) (simp add: exec_head [OF assms])

lemma dropWhile_hd: "s \<noteq> [] \<Longrightarrow> \<not> P (hd s) \<Longrightarrow> dropWhile P s = s"
  by (cases s) simp_all

lemma trim_id:
  assumes "s \<noteq> []" and "\<not> is_space (hd s)" and "\<not> is_space (last s)"
  shows "trim s = s"
proof -
  have "dropWhile is_space s = s" using assms by (simp add: dropWhile_hd)
  moreover have "dropWhile is_space (rev s) = rev s"
    using assms by (simp add: dropWhile_hd hd_rev)
  ultimately show ?thesis by (simp add: trim_def)
qed

lemma no_prefix:
  assumes "s \<noteq> []" and "\<not> eq_i 116 (hd s)" and "\<not> eq_i 112 (hd s)"
  shows "replace_prefix (Alt (lit_i ''tel:'') (lit_i ''phone:'')) s = s"
  using assms by (cases s) (simp_all add: replace_prefix_def lit_i_def)

lemma digits_only_id: "list_all is_digit s \<Longrightarrow> digits_only s = s"
  by (simp add: digits_only_def list_all_iff)

lemma normalize_digit_run:
  assumes "list_all is_digit ds" and "ds \<noteq> []"
  shows "normalize_candidate ds = ds"
proof -
  from assms have h: "is_digit (hd ds)" and l: "is_digit (last ds)"
    by (simp_all add: list_all_iff)
  have p: "replace_prefix (Alt (lit_i ''tel:'') (lit_i ''phone:'')) ds = ds"
    using assms h by (simp add: no_prefix digit_facts)
  have t: "trim ds = ds" using assms h l by (simp add: trim_id digit_facts)
  have "\<not> has_plus ds" using assms h by (cases ds) (simp_all add: digit_facts)
  then show ?thesis using assms by (simp add: normalize_candidate_def p t digits_only_id)
qed

lemma normalize_plus_run:
  assumes "list_all is_digit ds" and "ds \<noteq> []"
  shows "normalize_candidate (43 # ds) = 43 # ds"
proof -
  from assms have l: "is_digit (last ds)" by (simp add: list_all_iff)
  have p: "replace_prefix (Alt (lit_i ''tel:'') (lit_i ''phone:'')) (43 # ds) = 43 # ds"
    by (simp add: no_prefix plus_facts)
  have t: "trim (43 # ds) = 43 # ds" using assms l by (simp add: trim_id digit_facts plus_facts)
  show ?thesis using assms by (simp add: normalize_candidate_def p t digits_only_id)
qed

lemma scan_patterns_first:
  assumes "match_all p text = m # ms" and "valid_candidate (normalize_candidate m)"
  shows "scan_patterns (p # ps) text = Some (shape (normalize_candidate m))"
  using assms by (simp add: js_match_def scan_matches_Cons del: scan_matches.simps)

lemma extract_ten_prefix:
  assumes "list_all is_digit ds" and "length ds = 10"
  shows "extractPhoneNumber (ds @ rest) = Some ds"
proof -
  from assms have ne: "ds \<noteq> []" by auto
  from match_all_head [OF standard_on_digits [OF assms, of rest]] ne assms(2)
  obtain ms where m: "match_all standard_format (ds @ rest) = ds # ms" by auto
  have n: "normalize_candidate ds = ds" using assms ne by (simp add: normalize_digit_run)
  have hp: "\<not> has_plus ds" using n has_plus_digits_only [of ds] assms
    by (simp add: digits_only_id)
  then have v: "valid_candidate (normalize_candidate ds)" and s: "shape (normalize_candidate ds) = ds"
    using assms by (simp_all add: n valid_candidate_def shape_def digit_count_def strip_plus_no_plus)
  show ?thesis
    using scan_patterns_first [OF m v] s
    by (simp add: extractPhoneNumber_def phonePatterns_def)
qed

lemma extract_digit_run:
  assumes "list_all is_digit D" and "10 \<le> length D"
  shows "extractPhoneNumber D = Some (take 10 D)"
proof -
  have "list_all is_digit (take 10 D)" using assms(1) by (auto simp: list_all_iff dest: in_set_takeD)
  moreover have "length (take 10 D) = 10" using assms(2) by simp
  ultimately have "extractPhoneNumber (take 10 D @ drop 10 D) = Some (take 10 D)"
    by (rule extract_ten_prefix)
  then show ?thesis by simp
qed











lemma length_11: "length ds = 11 \<Longrightarrow> \<exists>a b c d e f g h i j k. ds = [a, b, c, d, e, f, g, h, i, j, k]"
  by (simp add: eval_nat_numeral length_Suc_conv) blast

lemma length_12: "length ds = 12 \<Longrightarrow> \<exists>a b c d e f g h i j k l. ds = [a, b, c, d, e, f, g, h, i, j, k, l]"
  by (simp add: eval_nat_numeral length_Suc_conv) blast

lemma length_13:
  "length ds = 13 \<Longrightarrow> \<exists>a b c d e f g h i j k l m. ds = [a, b, c, d, e, f, g, h, i, j, k, l, m]"
  by (simp add: eval_nat_numeral length_Suc_conv) blast

lemma standard_on_plus_11:
  assumes "list_all is_digit ds" and "length ds = 11"
  shows "\<exists>ts. match_here standard_format (43 # ds) = [] # ts"
proof -
  from length_11 [OF assms(2)] obtain a b c d e f g h i j k
    where ds: "ds = [a, b, c, d, e, f, g, h, i, j, k]" by blast
  with assms(1) have dg: "is_digit a" "is_digit b" "is_digit c" "is_digit d" "is_digit e"
    "is_digit f" "is_digit g" "is_digit h" "is_digit i" "is_digit j" "is_digit k" by simp_all
  show ?thesis
    unfolding ds standard_format_def country_def digits_def
    by (simp add: dg digit_facts plus_facts)
qed

lemma standard_on_plus_12:
  assumes "list_all is_digit ds" and "length ds = 12"
  shows "\<exists>ts. match_here standard_format (43 # ds) = [] # ts"
proof -
  from length_12 [OF assms(2)] obtain a b c d e f g h i j k l
    where ds: "ds = [a, b, c, d, e, f, g, h, i, j, k, l]" by blast
  with assms(1) have dg: "is_digit a" "is_digit b" "is_digit c" "is_digit d" "is_digit e"
    "is_digit f" "is_digit g" "is_digit h" "is_digit i" "is_digit j" "is_digit k" "is_digit l"
    by simp_all
  show ?thesis
    unfolding ds standard_format_def country_def digits_def
    by (simp add: dg digit_facts plus_facts)
qed

lemma standard_on_plus_13:
  assumes "list_all is_digit ds" and "length ds = 13"
  shows "\<exists>ts. match_here standard_format (43 # ds) = [] # ts"
proof -
  from length_13 [OF assms(2)] obtain a b c d e f g h i j k l m
    where ds: "ds = [a, b, c, d, e, f, g, h, i, j, k, l, m]" by blast
  with assms(1) have dg: "is_digit a" "is_digit b" "is_digit c" "is_digit d" "is_digit e"
    "is_digit f" "is_digit g" "is_digit h" "is_digit i" "is_digit j" "is_digit k" "is_digit l"
    "is_digit m" by simp_all
  show ?thesis
    unfolding ds standard_format_def country_def digits_def
    by (simp add: dg digit_facts plus_facts)
qed

lemma extract_plus_run:
  assumes "list_all is_digit ds" and "11 \<le> length ds" and "length ds \<le> 13"
  shows "extractPhoneNumber (43 # ds) = Some (43 # ds)"
proof -
  from assms have "length ds = 11 \<or> length ds = 12 \<or> length ds = 13" by arith
  with assms(1) obtain ts where "match_here standard_format (43 # ds) = [] # ts"
    using standard_on_plus_11 standard_on_plus_12 standard_on_plus_13 by blast
  from match_all_head [OF this]
  obtain ms where m: "match_all standard_format (43 # ds) = (43 # ds) # ms" by auto
  from assms have ne: "ds \<noteq> []" by auto
  have n: "normalize_candidate (43 # ds) = 43 # ds"
    using assms(1) ne by (rule normalize_plus_run)
  have v: "valid_candidate (normalize_candidate (43 # ds))"
    using assms by (simp add: n valid_candidate_def digit_count_def)
  have s: "shape (normalize_candidate (43 # ds)) = 43 # ds"
    by (simp add: n shape_def)
  show ?thesis
    using scan_patterns_first [OF m v] s
    by (simp add: extractPhoneNumber_def phonePatterns_def)
qed

text \<open>
  The candidates of exactly ten digits without \<open>+\<close>, and of \<open>+\<close> and 11 to 13 digits,
  are extracted to themselves.
\<close>

lemma extract_fixed_points:
  assumes "PhoneCandidate C"
    and "(\<not> has_plus C \<and> digit_count C = 10) \<or> (has_plus C \<and> 11 \<le> digit_count C \<and> digit_count C \<le> 13)"
  shows "extractPhoneNumber C = Some C"
proof (cases "has_plus C")
  case False
  then have "strip_plus C = C" by (rule strip_plus_no_plus)
  with assms False have "list_all is_digit C" "length C = 10"
    by (simp_all add: PhoneCandidate_def digit_count_def)
  from extract_ten_prefix [OF this, of "[]"] show ?thesis by simp
next
  case True
  then obtain ds where C: "C = 43 # ds" by (cases C) (simp_all add: has_plus_def)
  with assms have "list_all is_digit ds" "11 \<le> length ds" "length ds \<le> 13"
    by (simp_all add: PhoneCandidate_def digit_count_def)
  from extract_plus_run [OF this] C show ?thesis by simp
qed

text \<open>The extractor on the examples of its description.\<close>

lemma extract_examples:
  "extractPhoneNumber (js ''phone: 555 123 4567'') = Some (js ''5551234567'')"
  "extractPhoneNumber (js ''no digits here'') = None"
  "extractPhoneNumber (js ''123-4567-8901'') = Some (js ''+12345678901'')"
  "extractPhoneNumber (js ''TEL:+12-34-56-78-90'') = Some (js ''+1234567890'')"
  by (simp_all add: extract_eval)

section \<open>The claims about the extractor\<close>

text \<open>
  Claim C3.  The patterns are tried in their fixed order (the formatted 3-3-4 pattern, the
  run of 10 to 15 digits, the two other groupings, \<open>tel:\<close>, \<open>phone:\<close>); the candidates
  of a pattern are normalised and validated in the order of its matches and the first one
  that validates is returned, shaped; the next pattern is tried when none validates; the
  fallback is reached when no pattern has a validated candidate.
\<close>

theorem extract_ordered_first_validated:
  "extractPhoneNumber text =
     (case first_validated text of Some phone \<Rightarrow> Some phone | None \<Rightarrow> fallback text)"
  by (rule extract_by_order)

text \<open>
  Claim C4.  On a text where no pattern has a candidate that validates, the result is made
  from \<open>R\<close>, the digits of the whole text: \<open>R\<close> itself when it has 10 digits, \<open>+\<close> and \<open>R\<close>
  when it has 11 to 15, and nothing otherwise.
\<close>

theorem extract_fallback:
  assumes "\<not> list_ex (\<lambda>pattern. list_ex valid_candidate (candidates pattern text)) phonePatterns"
  shows "extractPhoneNumber text =
           (let R = digits_only text
            in if length R = 10 then Some R
               else if 11 \<le> length R \<and> length R \<le> 15 then Some (43 # R)
               else None)"
proof -
  from assms have "\<forall>pattern\<in>set phonePatterns. \<not> list_ex valid_candidate (candidates pattern text)"
    by (simp add: list_ex_iff)
  from extract_falls_back [OF this] show ?thesis by (simp add: fallback_def)
qed

theorem extract_fallback_witness:
  "\<not> list_ex (\<lambda>pattern. list_ex valid_candidate (candidates pattern (js ''12 34 56 78 90'')))
       phonePatterns
   \<and> extractPhoneNumber (js ''12 34 56 78 90'') = Some (js ''1234567890'')"
proof -
  have h: "\<not> list_ex (\<lambda>pattern. list_ex valid_candidate (candidates pattern (js ''12 34 56 78 90'')))
       phonePatterns"
    by (simp add: extract_eval candidate_eval)
  have "digits_only (js ''12 34 56 78 90'') = js ''1234567890''"
    by (simp add: digits_only_def js_def is_digit_def)
  with extract_fallback [OF h] h show ?thesis by (simp add: js_def)
qed

text \<open>
  Claim C5.  Every result of the extractor is a phone candidate: digits after an optional
  leading \<open>+\<close>, and between 10 and 15 of them.
\<close>

theorem extract_candidate:
  "extractPhoneNumber text = Some p \<Longrightarrow> PhoneCandidate p"
  by (rule extract_PhoneCandidate)

theorem extract_candidate_witness:
  "extractPhoneNumber (js ''tel:+1-202-555-0172'') = Some (js ''+12025550172'')
   \<and> PhoneCandidate (js ''+12025550172'')"
proof -
  have h: "extractPhoneNumber (js ''tel:+1-202-555-0172'') = Some (js ''+12025550172'')"
    by (simp add: extract_eval)
  from extract_candidate [OF h] h show ?thesis by simp
qed

text \<open>
  Claim C1, at a run of twelve digits: the first pattern matches the first ten digits of the
  run, which validate, so those ten digits are the result, and not \<open>+\<close> and the twelve.
\<close>

theorem extract_twelve_digits:
  "extractPhoneNumber (js ''123456789012'') = Some (js ''1234567890'')"
  by (simp add: extract_eval)




text \<open>
  Claim C6, at a result of the extractor itself: \<open>+\<close> and fourteen digits come out of
  the fallback; extracted again, the first pattern matches \<open>+\<close> and their first thirteen
  digits, and those are the result, not the candidate itself.
\<close>

theorem extract_not_idempotent:
  "extractPhoneNumber (js ''12345 67890 1234'') = Some (js ''+12345678901234'')
   \<and> PhoneCandidate (js ''+12345678901234'')
   \<and> extractPhoneNumber (js ''+12345678901234'') = Some (js ''+1234567890123'')
   \<and> extractPhoneNumber (js ''+12345678901234'') \<noteq> Some (js ''+12345678901234'')"
  by (simp add: extract_eval candidate_eval)

section \<open>The session: stopping, ticks and the hand-off\<close>

lemma calls_fold_called:
  "calls (fold (\<lambda>track. called (TrackStop track)) tracks s) = calls s @ map TrackStop tracks"
proof (induction tracks arbitrary: s)
  case Nil
  show ?case by simp
next
  case (Cons a tracks)
  have "calls (called (TrackStop a) s) = calls s @ [TrackStop a]" by (simp add: called_def)
  then show ?case by (simp add: Cons.IH)
qed

lemma calls_stopStream:
  "calls (stopStream st) =
     calls st @ (case streamRef st of None \<Rightarrow> [] | Some tracks \<Rightarrow> map TrackStop tracks)"
  by (simp add: stopStream_def calls_fold_called split: option.split)

lemma fold_called_fields:
  "scanIntervalRef (fold (\<lambda>track. called (TrackStop track)) tracks s) = scanIntervalRef s"
  "phoneNumber (fold (\<lambda>track. called (TrackStop track)) tracks s) = phoneNumber s"
  "scanned (fold (\<lambda>track. called (TrackStop track)) tracks s) = scanned s"
  by (induction tracks arbitrary: s) (simp_all add: called_def)

lemma stopStream_fields:
  "streamRef (stopStream st) = None"
  "scanIntervalRef (stopStream st) = scanIntervalRef st"
  "phoneNumber (stopStream st) = phoneNumber st"
  "scanned (stopStream st) = scanned st"
  by (simp_all add: stopStream_def fold_called_fields split: option.split)

lemma stopStream_srcObject: "srcObject (stopStream st) = srcObject st"
proof -
  have "srcObject (fold (\<lambda>track. called (TrackStop track)) tracks s) = srcObject s" for tracks s
    by (induction tracks arbitrary: s) (simp_all add: called_def)
  then show ?thesis by (simp add: stopStream_def split: option.split)
qed

lemma stopScanning_fields:
  "scanIntervalRef (stopScanning mounted st) =
     (if scanIntervalRef st = Some 0 then Some 0 else None)"
  "streamRef (stopScanning mounted st) = None"
  "srcObject (stopScanning mounted st) = (if mounted then None else srcObject st)"
  "isScanning (stopScanning mounted st) = False"
  "phoneNumber (stopScanning mounted st) = phoneNumber st"
  "scanned (stopScanning mounted st) = scanned st"
  by (simp_all add: stopScanning_def Let_def stopStream_fields stopStream_srcObject called_def
      split: option.split)

lemma calls_stopScanning:
  "calls (stopScanning mounted st) =
     calls st
       @ (case scanIntervalRef st of
            None \<Rightarrow> [] | Some t \<Rightarrow> if t = 0 then [] else [ClearInterval t])
       @ (case streamRef st of None \<Rightarrow> [] | Some tracks \<Rightarrow> map TrackStop tracks)"
  by (simp add: stopScanning_def Let_def calls_stopStream called_def split: option.split)

lemma found_SomeD:
  assumes "found f = Some p"
  shows "ready f" "ctx f" "truthy (code f)" "truthy (extractPhoneNumber (the (code f)))"
    "extractPhoneNumber (the (code f)) = Some p"
  using assms by (simp_all add: found_def split: if_splits)

lemma found_NoneD:
  assumes "found f = None"
  shows "\<not> (ready f \<and> ctx f \<and> truthy (code f) \<and> truthy (extractPhoneNumber (the (code f))))"
  using assms by (auto simp: found_def truthy_def split: if_splits option.splits)

lemma reported_append [simp]: "reported (xs @ ys) = reported xs @ reported ys"
  by (induction xs rule: reported.induct) simp_all

lemma reported_TrackStop [simp]: "reported (map TrackStop tracks) = []"
  by (induction tracks) simp_all

lemma tick_found:
  assumes "scanIntervalRef st = Some t" and "streamRef st = Some tracks" and "found f = Some p"
    and "0 < t"
  shows "scanIntervalRef (poll_tick f st) = None" "streamRef (poll_tick f st) = None"
    "srcObject (poll_tick f st) = None" "\<not> isScanning (poll_tick f st)"
    "phoneNumber (poll_tick f st) = p" "scanned (poll_tick f st)"
    "calls (poll_tick f st) =
       calls st @ [JsQR DontInvert, SetPhoneNumber p, ClearInterval t] @ map TrackStop tracks"
  using assms found_SomeD [OF assms(3)]
  by (simp_all add: poll_tick_def scanVideoFrame_def Let_def stopScanning_fields
      calls_stopScanning called_def)

lemma tick_not_found:
  assumes "found f = None"
  shows "scanIntervalRef (poll_tick f st) = scanIntervalRef st"
    "streamRef (poll_tick f st) = streamRef st"
    "reported (calls (poll_tick f st)) = reported (calls st)"
    "phoneNumber (poll_tick f st) = phoneNumber st"
  using found_NoneD [OF assms]
  by (auto simp: poll_tick_def scanVideoFrame_def Let_def called_def)

lemma ticks_not_found:
  assumes "list_all (\<lambda>f. found f = None) fs"
  shows "scanIntervalRef (poll_ticks fs st) = scanIntervalRef st"
    "streamRef (poll_ticks fs st) = streamRef st"
    "reported (calls (poll_ticks fs st)) = reported (calls st)"
    "phoneNumber (poll_ticks fs st) = phoneNumber st"
  using assms
  by (induction fs arbitrary: st) (simp_all add: poll_ticks_def tick_not_found)

lemma ticks_idle: "scanIntervalRef st = None \<Longrightarrow> poll_ticks fs st = st"
  by (induction fs) (simp_all add: poll_ticks_def poll_tick_def)

lemma ticks_append: "poll_ticks (fs @ gs) st = poll_ticks gs (poll_ticks fs st)"
  by (simp add: poll_ticks_def)

lemma ticks_single: "poll_ticks [f] st = poll_tick f st"
  by (simp add: poll_ticks_def)

lemma tick_ambiguous:
  assumes "scanIntervalRef s = Some t" and "ready g" and "ctx g" and "code g = Some d" and "d \<noteq> []"
    and "\<not> truthy (extractPhoneNumber d)"
  shows "poll_tick g s =
           s\<lparr>calls := calls s @ [JsQR DontInvert], lastScannedContent := d,
             error := js ''QR Code detected but no phone number found. Content: ''
                      @ [34] @ take 100 d @ js ''...'' @ [34]\<rparr>"
  using assms by (simp add: poll_tick_def scanVideoFrame_def Let_def called_def truthy_def)

lemma digit_count_le: "digit_count p \<le> length p"
  by (cases p) (simp_all add: digit_count_def)

lemma candidate_length: "PhoneCandidate p \<Longrightarrow> 10 \<le> length p"
  using digit_count_le [of p] by (simp add: PhoneCandidate_def)

lemma candidate_nonempty: "PhoneCandidate p \<Longrightarrow> p \<noteq> []"
  using candidate_length [of p] by auto

lemma sendSms_rejects:
  assumes "phoneNumber st = [] \<or> PhoneCandidate (phoneNumber st)"
    and "trim (smsMessage st) = [] \<or> digit_count (phoneNumber st) < 10"
  shows "calls (sendSms env st) = calls st"
    "error (sendSms env st) =
       js ''Failed to send SMS: ''
       @ (if phoneNumber st = [] then js ''Invalid phone number'' else js ''Message cannot be empty'')"
    "\<not> smsAttempted (sendSms env st)"
proof -
  have "phoneNumber st = [] \<or> (10 \<le> length (phoneNumber st) \<and> trim (smsMessage st) = [])"
    using assms candidate_length [of "phoneNumber st"]
    by (auto simp: PhoneCandidate_def)
  then show "calls (sendSms env st) = calls st"
    "error (sendSms env st) =
       js ''Failed to send SMS: ''
       @ (if phoneNumber st = [] then js ''Invalid phone number'' else js ''Message cannot be empty'')"
    "\<not> smsAttempted (sendSms env st)"
    by (auto simp: sendSms_def sendSms_try_def Let_def)
qed

lemma sendSms_navigates:
  assumes "trim (smsMessage st) \<noteq> []" and "10 \<le> digit_count (phoneNumber st)"
    and "encodeURIComponent (smsMessage st) = Some body"
  shows "calls (sendSms env st) =
           calls st @ [Navigate (js ''sms:'' @ phoneNumber st @ js ''?body='' @ body)]"
    "smsAttempted (sendSms env st) = (\<not> href_throws env)"
proof -
  from assms(2) digit_count_le [of "phoneNumber st"]
  have "10 \<le> length (phoneNumber st)" "phoneNumber st \<noteq> []" by auto
  with assms show "calls (sendSms env st) =
           calls st @ [Navigate (js ''sms:'' @ phoneNumber st @ js ''?body='' @ body)]"
    "smsAttempted (sendSms env st) = (\<not> href_throws env)"
    by (simp_all add: sendSms_def sendSms_try_def Let_def called_def)
qed

lemma sendSms_malformed:
  assumes "trim (smsMessage st) \<noteq> []" and "10 \<le> digit_count (phoneNumber st)"
    and "encodeURIComponent (smsMessage st) = None"
  shows "calls (sendSms env st) = calls st"
    "error (sendSms env st) = js ''Failed to send SMS: '' @ uri_error env"
    "\<not> smsAttempted (sendSms env st)"
proof -
  from assms(2) digit_count_le [of "phoneNumber st"]
  have "10 \<le> length (phoneNumber st)" "phoneNumber st \<noteq> []" by auto
  with assms show "calls (sendSms env st) = calls st"
    "error (sendSms env st) = js ''Failed to send SMS: '' @ uri_error env"
    "\<not> smsAttempted (sendSms env st)"
    by (simp_all add: sendSms_def sendSms_try_def Let_def called_def)
qed

lemma truthy_SomeD: "truthy v \<Longrightarrow> v = Some (the v)"
  by (cases v) (simp_all add: truthy_def)

lemma truthy_extract: "truthy (extractPhoneNumber d) \<Longrightarrow> PhoneCandidate (the (extractPhoneNumber d))"
  using extract_PhoneCandidate [of d] by (auto dest: truthy_SomeD)

lemma phoneNumber_sendSms: "phoneNumber (sendSms env st) = phoneNumber st"
  by (simp add: sendSms_def sendSms_try_def Let_def called_def split: option.split)

lemma stored_ok_preserved:
  "stored_ok initial"
  "stored_ok st \<Longrightarrow> stored_ok (scanVideoFrame f st)"
  "stored_ok st \<Longrightarrow> stored_ok (poll_tick f st)"
  "stored_ok st \<Longrightarrow> stored_ok (image_onload decoded st)"
  "stored_ok st \<Longrightarrow> stored_ok (handleManualInput input st)"
  "stored_ok (resetScanner mounted st)"
  "stored_ok st \<Longrightarrow> stored_ok (sendSms env st)"
  "stored_ok st \<Longrightarrow> stored_ok (stopScanning mounted st)"
  by (simp_all add: stored_ok_def initial_def scanVideoFrame_def poll_tick_def image_onload_def
      handleManualInput_def resetScanner_def Let_def stopScanning_fields called_def
      truthy_extract phoneNumber_sendSms)

lemma started:
  "startScanning \<lparr>acquired = Stream [2], video = True, play_error = None, timer = 7\<rparr> initial
     = initial\<lparr>isScanning := True, streamRef := Some [2], srcObject := Some [2],
               scanIntervalRef := Some 7, calls := [GetUserMedia, SetInterval 7]\<rparr>"
  by (simp add: startScanning_def initial_def called_def Let_def)

section \<open>The claims about the session\<close>

text \<open>
  Claim C7.  In a session that is polling, with its timer (timers have identifiers above
  0) and its stream, let the ticks
  \<open>before\<close> find no number and the tick on \<open>f\<close> find the number \<open>p\<close>.  Polling is
  still active after the ticks before, and nothing has been reported found.  The tick on
  \<open>f\<close> stores and reports \<open>p\<close>, clears the timer and stops every track of the stream;
  the ticks \<open>later\<close> change nothing, so that over the whole session exactly \<open>p\<close> is
  reported found, once.  A tick whose payload \<open>d\<close> is decoded and has no number sets the
  error message and leaves the timer and the stream as they are.
\<close>

theorem first_found_stops:
  assumes "scanIntervalRef st = Some t" and "0 < t" and "streamRef st = Some tracks"
    and "list_all (\<lambda>f. found f = None) before" and "found f = Some p"
  shows "scanIntervalRef (poll_ticks before st) = Some t
    \<and> reported (calls (poll_ticks before st)) = reported (calls st)
    \<and> scanIntervalRef (poll_ticks (before @ [f]) st) = None
    \<and> streamRef (poll_ticks (before @ [f]) st) = None
    \<and> srcObject (poll_ticks (before @ [f]) st) = None
    \<and> \<not> isScanning (poll_ticks (before @ [f]) st)
    \<and> phoneNumber (poll_ticks (before @ [f]) st) = p
    \<and> scanned (poll_ticks (before @ [f]) st)
    \<and> calls (poll_ticks (before @ [f]) st) =
        calls (poll_ticks before st) @ [JsQR DontInvert, SetPhoneNumber p, ClearInterval t]
          @ map TrackStop tracks
    \<and> poll_ticks (before @ [f] @ later) st = poll_ticks (before @ [f]) st
    \<and> reported (calls (poll_ticks (before @ [f] @ later) st)) = reported (calls st) @ [p]
    \<and> (scanIntervalRef s = Some t \<and> ready g \<and> ctx g \<and> code g = Some d \<and> d \<noteq> []
        \<and> \<not> truthy (extractPhoneNumber d) \<longrightarrow>
        poll_tick g s =
          s\<lparr>calls := calls s @ [JsQR DontInvert], lastScannedContent := d,
            error := js ''QR Code detected but no phone number found. Content: ''
                     @ [34] @ take 100 d @ js ''...'' @ [34]\<rparr>
        \<and> scanIntervalRef (poll_tick g s) = Some t
        \<and> streamRef (poll_tick g s) = streamRef s)"
proof -
  let ?s1 = "poll_ticks before st"
  let ?s2 = "poll_ticks (before @ [f]) st"
  have a: "scanIntervalRef ?s1 = Some t" "streamRef ?s1 = Some tracks"
    "reported (calls ?s1) = reported (calls st)"
    using assms(1,3) by (simp_all add: ticks_not_found [OF assms(4)])
  have s2: "?s2 = poll_tick f ?s1" by (simp add: ticks_append ticks_single)
  note b = tick_found [OF a(1) a(2) assms(5) assms(2), folded s2]
  have "poll_ticks (before @ [f] @ later) st = poll_ticks later ?s2"
    by (simp add: poll_ticks_def)
  with ticks_idle [OF b(1), of later]
  have c: "poll_ticks (before @ [f] @ later) st = ?s2" by simp
  have d: "reported (calls ?s2) = reported (calls st) @ [p]"
    by (simp add: b(7) a(3))
  have e: "scanIntervalRef s = Some t \<and> ready g \<and> ctx g \<and> code g = Some d \<and> d \<noteq> []
        \<and> \<not> truthy (extractPhoneNumber d) \<longrightarrow>
        poll_tick g s =
          s\<lparr>calls := calls s @ [JsQR DontInvert], lastScannedContent := d,
            error := js ''QR Code detected but no phone number found. Content: ''
                     @ [34] @ take 100 d @ js ''...'' @ [34]\<rparr>
        \<and> scanIntervalRef (poll_tick g s) = Some t
        \<and> streamRef (poll_tick g s) = streamRef s"
    by (auto simp: tick_ambiguous)
  from a(1) a(3) b c d e show ?thesis by (simp only: simp_thms)
qed

theorem first_found_stops_witness:
  "scanIntervalRef (startScanning \<lparr>acquired = Stream [2], video = True, play_error = None, timer = 7\<rparr> initial) = Some 7
   \<and> (0::nat) < 7
   \<and> streamRef (startScanning \<lparr>acquired = Stream [2], video = True, play_error = None, timer = 7\<rparr> initial) = Some [2]
   \<and> list_all (\<lambda>f. found f = None)
        [\<lparr>ready = True, ctx = True, code = None\<rparr>, \<lparr>ready = True, ctx = True, code = Some (js ''hello'')\<rparr>]
   \<and> found \<lparr>ready = True, ctx = True, code = Some (js ''tel:+1-202-555-0172'')\<rparr> = Some (js ''+12025550172'')
   \<and> reported (calls (poll_ticks
        ([\<lparr>ready = True, ctx = True, code = None\<rparr>, \<lparr>ready = True, ctx = True, code = Some (js ''hello'')\<rparr>]
         @ [\<lparr>ready = True, ctx = True, code = Some (js ''tel:+1-202-555-0172'')\<rparr>]
         @ [\<lparr>ready = True, ctx = True, code = Some (js ''5551234567'')\<rparr>])
        (startScanning \<lparr>acquired = Stream [2], video = True, play_error = None, timer = 7\<rparr> initial)))
      = [js ''+12025550172'']
   \<and> ready \<lparr>ready = True, ctx = True, code = Some (js ''hello'')\<rparr>
   \<and> \<not> truthy (extractPhoneNumber (js ''hello''))
   \<and> scanIntervalRef (poll_tick \<lparr>ready = True, ctx = True, code = Some (js ''hello'')\<rparr>
        (startScanning \<lparr>acquired = Stream [2], video = True, play_error = None, timer = 7\<rparr> initial)) = Some 7"
proof -
  let ?st = "startScanning \<lparr>acquired = Stream [2], video = True, play_error = None, timer = 7\<rparr> initial"
  have h1: "scanIntervalRef ?st = Some 7" by (simp add: started)
  have h0: "(0::nat) < 7" by simp
  have h2: "streamRef ?st = Some [2]" by (simp add: started)
  have x: "extractPhoneNumber (js ''hello'') = None" by (simp add: extract_eval)
  have y: "extractPhoneNumber (js ''tel:+1-202-555-0172'') = Some (js ''+12025550172'')"
    by (simp add: extract_eval)
  have h3: "list_all (\<lambda>f. found f = None)
        [\<lparr>ready = True, ctx = True, code = None\<rparr>, \<lparr>ready = True, ctx = True, code = Some (js ''hello'')\<rparr>]"
    by (simp add: found_def truthy_def x)
  have h4: "found \<lparr>ready = True, ctx = True, code = Some (js ''tel:+1-202-555-0172'')\<rparr> = Some (js ''+12025550172'')"
    by (simp add: found_def truthy_def y) (simp add: js_def)
  have h5: "\<not> truthy (extractPhoneNumber (js ''hello''))" by (simp add: truthy_def x)
  have h6: "js ''hello'' \<noteq> []" by (simp add: js_def)
  have c: "reported (calls ?st) = []" by (simp add: started)
  from first_found_stops [OF h1 h0 h2 h3 h4,
      of "[\<lparr>ready = True, ctx = True, code = Some (js ''5551234567'')\<rparr>]" ?st
         "\<lparr>ready = True, ctx = True, code = Some (js ''hello'')\<rparr>" "js ''hello''"]
    h1 h2 h3 h4 h5 h6 c
  show ?thesis by simp
qed

text \<open>
  Claim C8, amended.  With a stored number that is empty or a phone candidate,
  \<open>sendSms\<close> fails with an error and requests no navigation when the message is empty
  after trimming or the digit count of the number is below 10.  When both preconditions
  hold and \<open>encodeURIComponent\<close> encodes the message to \<open>body\<close>, the one call is the
  navigation to \<open>sms:\<close>, the number, \<open>?body=\<close> and \<open>body\<close>.  When both hold and the
  message has an unpaired surrogate, \<open>encodeURIComponent\<close> throws, and \<open>sendSms\<close> fails
  with the error of the engine and requests no navigation.
\<close>

theorem sendSms_handoff:
  "(stored_ok a \<and> (trim (smsMessage a) = [] \<or> digit_count (phoneNumber a) < 10) \<longrightarrow>
      calls (sendSms env a) = calls a
      \<and> error (sendSms env a) =
          js ''Failed to send SMS: ''
          @ (if phoneNumber a = [] then js ''Invalid phone number'' else js ''Message cannot be empty'')
      \<and> \<not> smsAttempted (sendSms env a))
   \<and> (trim (smsMessage b) \<noteq> [] \<and> 10 \<le> digit_count (phoneNumber b)
       \<and> encodeURIComponent (smsMessage b) = Some body \<longrightarrow>
      calls (sendSms env b) =
        calls b @ [Navigate (js ''sms:'' @ phoneNumber b @ js ''?body='' @ body)])
   \<and> (trim (smsMessage c) \<noteq> [] \<and> 10 \<le> digit_count (phoneNumber c)
       \<and> encodeURIComponent (smsMessage c) = None \<longrightarrow>
      calls (sendSms env c) = calls c
      \<and> error (sendSms env c) = js ''Failed to send SMS: '' @ uri_error env
      \<and> \<not> smsAttempted (sendSms env c))"
  using sendSms_rejects [of a env] sendSms_navigates [of b body env] sendSms_malformed [of c env]
  by (simp add: stored_ok_def)

theorem sendSms_handoff_witness:
  "stored_ok (initial\<lparr>phoneNumber := js ''5551234567'', smsMessage := js ''  ''\<rparr>)
   \<and> trim (js ''  '') = []
   \<and> calls (sendSms \<lparr>mobile = True, href_throws = False, uri_error = js ''URI malformed''\<rparr>
        (initial\<lparr>phoneNumber := js ''5551234567'', smsMessage := js ''  ''\<rparr>)) = []
   \<and> trim (js ''a b'') \<noteq> [] \<and> 10 \<le> digit_count (js ''5551234567'')
   \<and> encodeURIComponent (js ''a b'') = Some (js ''a%20b'')
   \<and> calls (sendSms \<lparr>mobile = True, href_throws = False, uri_error = js ''URI malformed''\<rparr>
        (initial\<lparr>phoneNumber := js ''5551234567'', smsMessage := js ''a b''\<rparr>))
       = [Navigate (js ''sms:5551234567?body=a%20b'')]
   \<and> trim [0xD83D] \<noteq> [] \<and> encodeURIComponent [0xD83D] = None
   \<and> calls (sendSms \<lparr>mobile = True, href_throws = False, uri_error = js ''URI malformed''\<rparr>
        (initial\<lparr>phoneNumber := js ''5551234567'', smsMessage := [0xD83D]\<rparr>)) = []"
proof -
  let ?env = "\<lparr>mobile = True, href_throws = False, uri_error = js ''URI malformed''\<rparr>"
  have p: "PhoneCandidate (js ''5551234567'')" by (simp add: candidate_eval js_def is_digit_def)
  have a: "stored_ok (initial\<lparr>phoneNumber := js ''5551234567'', smsMessage := js ''  ''\<rparr>)"
    using p by (simp add: stored_ok_def)
  have t1: "trim (js ''  '') = []" by (simp add: trim_def js_def is_space_def)
  have t2: "trim (js ''a b'') \<noteq> []" by (simp add: trim_def js_def is_space_def)
  have t3: "trim [0xD83D] \<noteq> []" by (simp add: trim_def is_space_def)
  have d: "10 \<le> digit_count (js ''5551234567'')" by (simp add: digit_count_def js_def)
  have e2: "encodeURIComponent (js ''a b'') = Some (js ''a%20b'')"
    by (simp add: js_def uri_unreserved_def is_low_surrogate_def is_high_surrogate_def utf8_def
        percent_def hex_digit_def)
  have e3: "encodeURIComponent [0xD83D] = None"
    by (simp add: uri_unreserved_def is_low_surrogate_def is_high_surrogate_def)
  have c: "calls initial = []" by (simp add: initial_def)
  from sendSms_handoff [of "initial\<lparr>phoneNumber := js ''5551234567'', smsMessage := js ''  ''\<rparr>"
      ?env "initial\<lparr>phoneNumber := js ''5551234567'', smsMessage := js ''a b''\<rparr>" "js ''a%20b''"
      "initial\<lparr>phoneNumber := js ''5551234567'', smsMessage := [0xD83D]\<rparr>"]
    a t1 t2 t3 d e2 e3 c
  show ?thesis by (simp add: js_def)
qed

text \<open>
  Claim C8 as stated fails on a message that is half of a surrogate pair: the number was
  entered by hand and has ten digits, the message is not empty, and no navigation is
  requested.
\<close>

theorem sendSms_unpaired_surrogate:
  "trim [0xD83D] \<noteq> [] \<and> 10 \<le> digit_count (js ''5551234567'')
   \<and> calls (sendSms \<lparr>mobile = True, href_throws = False, uri_error = js ''URI malformed''\<rparr>
        ((handleManualInput (js ''5551234567'') initial)\<lparr>smsMessage := [0xD83D]\<rparr>))
       = [SetPhoneNumber (js ''5551234567'')]
   \<and> error (sendSms \<lparr>mobile = True, href_throws = False, uri_error = js ''URI malformed''\<rparr>
        ((handleManualInput (js ''5551234567'') initial)\<lparr>smsMessage := [0xD83D]\<rparr>))
       = js ''Failed to send SMS: '' @ js ''URI malformed''"
proof -
  have x: "extractPhoneNumber (js ''5551234567'') = Some (js ''5551234567'')"
    by (simp add: extract_eval)
  have n: "js ''5551234567'' \<noteq> []" by (simp add: js_def)
  have h: "handleManualInput (js ''5551234567'') initial
    = initial\<lparr>calls := [SetPhoneNumber (js ''5551234567'')], phoneNumber := js ''5551234567'',
              scanned := True\<rparr>"
    by (simp add: handleManualInput_def x truthy_def n called_def Let_def initial_def)
  have l: "length (js ''5551234567'') = 10" by (simp add: js_def)
  have t3: "trim [0xD83D] \<noteq> []" by (simp add: trim_def is_space_def)
  have e3: "encodeURIComponent [0xD83D] = None"
    by (simp add: uri_unreserved_def is_low_surrogate_def is_high_surrogate_def)
  have d: "10 \<le> digit_count (js ''5551234567'')" by (simp add: digit_count_def js_def)
  show ?thesis
    unfolding h using t3 d
    by (simp add: sendSms_def sendSms_try_def Let_def e3 n l initial_def
        del: encodeURIComponent.simps)
qed

text \<open>
  Claim C10.  When acquiring the device fails, \<open>requestCameraPermission\<close> returns false.
  A permission refusal (\<open>NotAllowedError\<close>) sets the permission state to denied.  Any
  other failure leaves the permission state, and everything else but the error message,
  as it was: the message is the one for a missing device, or the general one.
\<close>

theorem permission_failure:
  "fst (requestCameraPermission (Rejected name message) st) = False
   \<and> permissionState (snd (requestCameraPermission (Rejected (js ''NotAllowedError'') message) st))
       = Denied
   \<and> (name \<noteq> js ''NotAllowedError'' \<longrightarrow>
        permissionState (snd (requestCameraPermission (Rejected name message) st))
          = permissionState st
        \<and> snd (requestCameraPermission (Rejected name message) st)
          = (called GetUserMedia st)
              \<lparr>error := (if name = js ''NotFoundError'' then js ''No camera found on this device.''
                         else js ''Camera access failed: '' @ message)\<rparr>)"
  by (simp add: requestCameraPermission_def called_def Let_def)

theorem permission_failure_witness:
  "js ''NotFoundError'' \<noteq> js ''NotAllowedError''
   \<and> fst (requestCameraPermission (Rejected (js ''NotFoundError'') (js ''no device'')) initial) = False
   \<and> permissionState
        (snd (requestCameraPermission (Rejected (js ''NotFoundError'') (js ''no device'')) initial))
       = Unknown
   \<and> permissionState
        (snd (requestCameraPermission (Rejected (js ''NotAllowedError'') (js ''no device'')) initial))
       = Denied
   \<and> error (snd (requestCameraPermission (Rejected (js ''NotFoundError'') (js ''no device'')) initial))
       = js ''No camera found on this device.''"
proof -
  have n: "js ''NotFoundError'' \<noteq> js ''NotAllowedError''"
    by (simp add: js_def)
  have e: "error (snd (requestCameraPermission (Rejected (js ''NotFoundError'') (js ''no device'')) initial))
       = js ''No camera found on this device.''"
    using n by (simp add: requestCameraPermission_def called_def Let_def)
  have u: "permissionState initial = Unknown" by (simp add: initial_def)
  from permission_failure [of "js ''NotFoundError''" "js ''no device''" initial] n e u
  show ?thesis by (simp add: called_def)
qed

text \<open>
  Claim C9.  A selected file whose media type does not start with \<open>image/\<close> gets the
  error for a wrong file type and nothing else: no file processing, no image load and no
  call of the decoder.  A file whose media type starts with \<open>image/\<close> is processed.
\<close>

theorem file_select:
  "(\<not> starts_with other (js ''image/'') \<longrightarrow>
      handleFileSelect (Some other) env st
        = st\<lparr>error := js ''Please select an image file (JPG, PNG, GIF, WebP, etc.)''\<rparr>
      \<and> calls (handleFileSelect (Some other) env st) = calls st
      \<and> isProcessingFile (handleFileSelect (Some other) env st) = isProcessingFile st)
   \<and> (starts_with picture (js ''image/'') \<longrightarrow>
      handleFileSelect (Some picture) env st = processFileUpload env st)"
  by (simp add: handleFileSelect_def)

theorem file_select_witness:
  "\<not> starts_with (js ''text/plain'') (js ''image/'')
   \<and> starts_with (js ''image/png'') (js ''image/'')
   \<and> handleFileSelect (Some (js ''text/plain'')) \<lparr>canvas = True, context2d = True\<rparr> initial
       = initial\<lparr>error := js ''Please select an image file (JPG, PNG, GIF, WebP, etc.)''\<rparr>
   \<and> calls (handleFileSelect (Some (js ''text/plain'')) \<lparr>canvas = True, context2d = True\<rparr> initial) = []
   \<and> handleFileSelect (Some (js ''image/png'')) \<lparr>canvas = True, context2d = True\<rparr> initial
       = processFileUpload \<lparr>canvas = True, context2d = True\<rparr> initial
   \<and> calls (handleFileSelect (Some (js ''image/png'')) \<lparr>canvas = True, context2d = True\<rparr> initial)
       = [ImageLoad]"
proof -
  have a: "\<not> starts_with (js ''text/plain'') (js ''image/'')"
    by (simp add: starts_with_def js_def)
  have b: "starts_with (js ''image/png'') (js ''image/'')"
    by (simp add: starts_with_def js_def)
  have c: "calls initial = []" by (simp add: initial_def)
  have d: "calls (processFileUpload \<lparr>canvas = True, context2d = True\<rparr> initial) = [ImageLoad]"
    by (simp add: processFileUpload_def called_def initial_def Let_def)
  from file_select [of "js ''text/plain''" "\<lparr>canvas = True, context2d = True\<rparr>" initial "js ''image/png''"]
    a b c d show ?thesis by simp
qed

end
